theory Spec2Isabelle
  imports
    Main
    "HOL-Library.Sublist"
    "HOL-Library.Finite_Map"
    "HOL-Library.Char_ord"
    "HOL-Library.List_Lexorder"
begin

section \<open>Strings, errors and the string operations of the source\<close>

text \<open>
  The development embeds \<^verbatim>\<open>src/jupyterhub_traefik_proxy/etcd.py\<close>, the etcd binding of
  the key-value route store (class \<^verbatim>\<open>TraefikEtcdProxy\<close>).

  A Python \<^verbatim>\<open>str\<close> and a \<^verbatim>\<open>bytes\<close> value are both represented by \<open>string\<close>, the
  list of the bytes of the UTF-8 encoding; \<^verbatim>\<open>.encode()\<close> and \<^verbatim>\<open>.decode()\<close> are then the
  identity. Stored values that are not valid UTF-8 (for which \<^verbatim>\<open>.decode()\<close> raises) are
  outside the model. Logging (\<^verbatim>\<open>self.log.warning\<close>) changes neither the store nor a result
  and is left out.
\<close>

datatype error = DecodeError

text \<open>\<^verbatim>\<open>sep.join(parts)\<close>\<close>

fun str_join :: "string \<Rightarrow> string list \<Rightarrow> string" where
  "str_join sep [] = []"
| "str_join sep [x] = x"
| "str_join sep (x # y # ys) = x @ sep @ str_join sep (y # ys)"

text \<open>
  \<^verbatim>\<open>s.replace(old, new, 1)\<close>: the leftmost occurrence of \<open>old\<close> in \<open>s\<close> is replaced by
  \<open>new\<close>; a string without an occurrence is returned as it is.
\<close>

fun str_replace1 :: "string \<Rightarrow> string \<Rightarrow> string \<Rightarrow> string" where
  "str_replace1 [] old new = (if old = [] then new else [])"
| "str_replace1 (c # cs) old new =
     (if prefix old (c # cs) then new @ drop (length old) (c # cs)
      else c # str_replace1 cs old new)"

section \<open>The escaping codec\<close>

text \<open>
  Modelled from the spec: \<^verbatim>\<open>escape\<close> and \<^verbatim>\<open>unescape\<close> of the external escaping library
  (\<^verbatim>\<open>import escapism\<close>, line 22 of etcd.py); the library is not under src/. The spec
  (4.1, 6 and 9) asks for a self-contained, percent-style pair with a fixed set of reserved
  characters, whose escape character set is disjoint from the path separator, and for an
  \<^verbatim>\<open>unescape\<close> that fails with \<^verbatim>\<open>DecodeError\<close> on a segment that is not validly escaped.
  Here the safe characters are the ASCII letters and digits; every other byte is written as
  the escape character \<open>%\<close> followed by its two upper-case hexadecimal digits.
\<close>

definition safe_char :: "char \<Rightarrow> bool" where
  "safe_char c =
     (let n = (of_char c :: nat)
      in (48 \<le> n \<and> n \<le> 57) \<or> (65 \<le> n \<and> n \<le> 90) \<or> (97 \<le> n \<and> n \<le> 122))"

definition escape_char :: char where
  "escape_char = CHR ''%''"

definition hex_digit :: "nat \<Rightarrow> char" where
  "hex_digit n = (if n < 10 then char_of (48 + n) else char_of (55 + n))"

definition hex_val :: "char \<Rightarrow> nat option" where
  "hex_val c =
     (let n = (of_char c :: nat)
      in if 48 \<le> n \<and> n \<le> 57 then Some (n - 48)
         else if 65 \<le> n \<and> n \<le> 70 then Some (n - 55)
         else if 97 \<le> n \<and> n \<le> 102 then Some (n - 87)
         else None)"

definition escape_one :: "char \<Rightarrow> string" where
  "escape_one c =
     [escape_char, hex_digit ((of_char c :: nat) div 16), hex_digit ((of_char c :: nat) mod 16)]"

text \<open>
  Modelled from the spec: \<^verbatim>\<open>escape\<close> of the escaping library (not under src/); a safe
  character stands for itself, every other byte is escaped.
\<close>

definition escape :: "string \<Rightarrow> string" where
  "escape to_escape = concat (map (\<lambda>c. if safe_char c then [c] else escape_one c) to_escape)"

text \<open>
  Modelled from the spec: \<^verbatim>\<open>unescape\<close> of the escaping library (not under src/), the
  inverse of \<^verbatim>\<open>escape\<close>. An escape character that is not followed by two hexadecimal
  digits, or a character that is neither safe nor the escape character, is a
  \<^verbatim>\<open>DecodeError\<close>. \<open>push_char\<close> puts a decoded character in front of the decoded rest.
\<close>

definition push_char :: "char \<Rightarrow> error + string \<Rightarrow> error + string" where
  "push_char c r = (case r of Inl e \<Rightarrow> Inl e | Inr s \<Rightarrow> Inr (c # s))"

fun unescape :: "string \<Rightarrow> error + string" where
  "unescape [] = Inr []"
| "unescape (c # h # l # rest) =
     (if c = escape_char then
        (case (hex_val h, hex_val l) of
           (Some a, Some b) \<Rightarrow> push_char (char_of (16 * a + b)) (unescape rest)
         | _ \<Rightarrow> Inl DecodeError)
      else if safe_char c then push_char c (unescape (h # l # rest))
      else Inl DecodeError)"
| "unescape (c # cs) =
     (if c = escape_char then Inl DecodeError
      else if safe_char c then push_char c (unescape cs)
      else Inl DecodeError)"

section \<open>The key-value backend\<close>

text \<open>
  Modelled from the spec: the client of the key-value store (\<^verbatim>\<open>self.kv_client\<close>, built
  by the external etcd3 library, not under src/), after the backend contract of the spec
  (4.2 and 6): a single-key get, a prefix range get that returns a finite snapshot, and an
  atomic transaction that applies a list of put and delete actions together. The
  transaction takes the three arguments the source passes (\<^verbatim>\<open>compare\<close>, \<^verbatim>\<open>success\<close>,
  \<^verbatim>\<open>failure\<close>): when every compare condition holds it applies the success actions, in
  their order, and reports \<open>True\<close>; otherwise it applies the failure actions and reports
  \<open>False\<close>. Every submitted transaction is recorded in \<open>txn_log\<close>, so that what an
  operation submits can be stated. Connectivity failures are not modelled.
\<close>

datatype action = Put string string | Delete string

datatype compare = ValueEq string string

datatype op_response = PutResponse | DeleteRangeResponse

record txn =
  txn_compare :: "compare list"
  txn_success :: "action list"
  txn_failure :: "action list"

record etcd =
  kv_data :: "(string, string) fmap"
  txn_log :: "txn list"

record kv_metadata =
  key :: string

type_synonym kv_entry = "string \<times> kv_metadata"

fun apply_action :: "action \<Rightarrow> (string, string) fmap \<Rightarrow> (string, string) fmap" where
  "apply_action (Put k v) m = fmupd k v m"
| "apply_action (Delete k) m = fmdrop k m"

fun holds :: "(string, string) fmap \<Rightarrow> compare \<Rightarrow> bool" where
  "holds m (ValueEq k v) = (fmlookup m k = Some v)"

fun response_of :: "action \<Rightarrow> op_response" where
  "response_of (Put k v) = PutResponse"
| "response_of (Delete k) = DeleteRangeResponse"

text \<open>
  Modelled from the spec: \<^verbatim>\<open>kv_client.transaction(compare, success, failure)\<close> of the
  store client (not under src/); atomic, the actions applied in their order.
\<close>

definition client_transaction ::
  "compare list \<Rightarrow> action list \<Rightarrow> action list \<Rightarrow> etcd \<Rightarrow> (bool \<times> op_response list) \<times> etcd" where
  "client_transaction cmp succ fail c =
     (let ok = list_all (holds (kv_data c)) cmp;
          acts = (if ok then succ else fail)
      in ((ok, map response_of acts),
          c\<lparr>kv_data := fold apply_action acts (kv_data c),
            txn_log := txn_log c @ [\<lparr>txn_compare = cmp, txn_success = succ, txn_failure = fail\<rparr>]\<rparr>))"

text \<open>
  Modelled from the spec: \<^verbatim>\<open>kv_client.get(key)\<close> of the store client (not under src/);
  the value and its metadata, or \<open>(None, None)\<close> for an absent key.
\<close>

definition client_get :: "string \<Rightarrow> etcd \<Rightarrow> string option \<times> kv_metadata option" where
  "client_get k c =
     (case fmlookup (kv_data c) k of
        None \<Rightarrow> (None, None)
      | Some v \<Rightarrow> (Some v, Some \<lparr>key = k\<rparr>))"

text \<open>
  Modelled from the spec: \<^verbatim>\<open>kv_client.get_prefix(prefix)\<close> of the store client (not under
  src/); the snapshot of the entries whose key starts with the prefix, in key order, each
  as the pair of the value and the metadata.
\<close>

definition client_get_prefix :: "string \<Rightarrow> etcd \<Rightarrow> kv_entry list" where
  "client_get_prefix p c =
     map (\<lambda>(k, v). (v, \<lparr>key = k\<rparr>)) (sorted_list_of_fmap (fmfilter (prefix p) (kv_data c)))"

section \<open>The route store of etcd.py\<close>

text \<open>
  The two configuration traits the methods read from \<^verbatim>\<open>self\<close>; they are declared by the
  parent class \<^verbatim>\<open>TKvProxy\<close>, which is not under src/, and are parameters here. The record
  \<open>route_keys\<close> has the fields of the caller-supplied \<^verbatim>\<open>route_keys\<close> that etcd.py reads.
\<close>

record proxy =
  kv_separator :: string
  kv_jupyterhub_prefix :: string

record route_keys =
  service_alias :: string
  service_url_path :: string
  router_service_path :: string
  router_rule_path :: string

text \<open>\<^verbatim>\<open>_etcd_transaction\<close>, \<^verbatim>\<open>_etcd_get\<close>, \<^verbatim>\<open>_etcd_get_prefix\<close> (lines 97 to 112)\<close>

definition etcd_transaction :: "action list \<Rightarrow> etcd \<Rightarrow> (bool \<times> op_response list) \<times> etcd" where
  "etcd_transaction success_actions c = client_transaction [] success_actions [] c"

definition etcd_get :: "string \<Rightarrow> etcd \<Rightarrow> string option" where
  "etcd_get k c = fst (client_get k c)"

definition etcd_get_prefix :: "string \<Rightarrow> etcd \<Rightarrow> kv_entry list" where
  "etcd_get_prefix p c = client_get_prefix p c"

text \<open>\<^verbatim>\<open>_kv_atomic_add_route_parts\<close> (lines 129 to 145)\<close>

definition kv_atomic_add_route_parts ::
  "proxy \<Rightarrow> string \<Rightarrow> string \<Rightarrow> string \<Rightarrow> route_keys \<Rightarrow> string \<Rightarrow> etcd
     \<Rightarrow> (bool \<times> op_response list) \<times> etcd" where
  "kv_atomic_add_route_parts P jupyterhub_routespec target data rk rule c =
     (let jupyterhub_target =
            str_join (kv_separator P) [kv_jupyterhub_prefix P, ''targets'', escape target];
          success =
            [Put jupyterhub_routespec target,
             Put jupyterhub_target data,
             Put (service_url_path rk) target,
             Put (router_service_path rk) (service_alias rk),
             Put (router_rule_path rk) rule]
      in etcd_transaction success c)"

text \<open>\<^verbatim>\<open>_kv_atomic_delete_route_parts\<close> (lines 147 to 167)\<close>

definition kv_atomic_delete_route_parts ::
  "proxy \<Rightarrow> string \<Rightarrow> route_keys \<Rightarrow> etcd \<Rightarrow> (bool \<times> op_response list option) \<times> etcd" where
  "kv_atomic_delete_route_parts P jupyterhub_routespec rk c =
     (case etcd_get jupyterhub_routespec c of
        None \<Rightarrow> ((True, None), c)
      | Some v \<Rightarrow>
          (let jupyterhub_target =
                 str_join (kv_separator P) [kv_jupyterhub_prefix P, ''targets'', escape v];
               success =
                 [Delete jupyterhub_routespec,
                  Delete jupyterhub_target,
                  Delete (service_url_path rk),
                  Delete (router_service_path rk),
                  Delete (router_rule_path rk)];
               r = etcd_transaction success c
           in ((fst (fst r), Some (snd (fst r))), snd r)))"

text \<open>\<^verbatim>\<open>_kv_get_target\<close> and \<^verbatim>\<open>_kv_get_data\<close> (lines 169 to 179)\<close>

definition kv_get_target :: "string \<Rightarrow> etcd \<Rightarrow> string option" where
  "kv_get_target jupyterhub_routespec c =
     (case etcd_get jupyterhub_routespec c of None \<Rightarrow> None | Some v \<Rightarrow> Some v)"

definition kv_get_data :: "string \<Rightarrow> etcd \<Rightarrow> string option" where
  "kv_get_data target c =
     (case etcd_get target c of None \<Rightarrow> None | Some v \<Rightarrow> Some v)"

text \<open>
  \<^verbatim>\<open>_kv_get_route_parts\<close> (lines 181 to 194). An entry of a range read is the pair of the
  value and the metadata that holds the key. Both calls of \<^verbatim>\<open>unescape\<close> can fail; the
  failure is the result.
\<close>

definition kv_get_route_parts ::
  "proxy \<Rightarrow> kv_entry \<Rightarrow> etcd \<Rightarrow> error + (string \<times> string \<times> string option)" where
  "kv_get_route_parts P kv_entry c =
     (let k = key (snd kv_entry);
          v = fst kv_entry;
          sep = kv_separator P;
          route_prefix = str_join sep [kv_jupyterhub_prefix P, ''routes'' @ sep];
          target_prefix = str_join sep [kv_jupyterhub_prefix P, ''targets'']
      in case unescape (str_replace1 k route_prefix []) of
           Inl e \<Rightarrow> Inl e
         | Inr routespec \<Rightarrow>
             (let etcd_target = str_join sep [target_prefix, escape v]
              in case unescape (str_replace1 etcd_target (target_prefix @ sep) []) of
                   Inl e \<Rightarrow> Inl e
                 | Inr target \<Rightarrow> Inr (routespec, target, kv_get_data etcd_target c)))"

text \<open>\<^verbatim>\<open>_kv_get_jupyterhub_prefixed_entries\<close> (lines 196 to 200)\<close>

definition kv_get_jupyterhub_prefixed_entries :: "proxy \<Rightarrow> etcd \<Rightarrow> kv_entry list" where
  "kv_get_jupyterhub_prefixed_entries P c =
     (let sep = kv_separator P;
          routespecs_prefix = str_join sep [kv_jupyterhub_prefix P, ''routes'' @ sep]
      in etcd_get_prefix routespecs_prefix c)"

text \<open>
  \<^verbatim>\<open>persist_dynamic_config\<close> (lines 202 to 208). The flattening of the configuration is
  done by \<^verbatim>\<open>flatten_dict_for_kv\<close> of the parent class, not under src/; its result, the
  items of the flat dictionary, is the parameter \<open>flat\<close>.
\<close>

definition persist_dynamic_config ::
  "(string \<times> string) list \<Rightarrow> etcd \<Rightarrow> (bool \<times> op_response list) \<times> etcd" where
  "persist_dynamic_config flat c =
     (let transactions = map (\<lambda>(k, v). Put k v) flat
      in etcd_transaction transactions c)"

section \<open>The caller's side\<close>

text \<open>
  Modelled from the spec: the key under which the caller (\<^verbatim>\<open>TKvProxy\<close>, not under src/)
  stores a routespec, \<^verbatim>\<open>routeKey\<close> of the spec (4.1):
  \<^verbatim>\<open>join(jupyterhubPrefix, "routes", escape(routespec))\<close>.
\<close>

definition routeKey :: "proxy \<Rightarrow> string \<Rightarrow> string" where
  "routeKey P routespec =
     str_join (kv_separator P) [kv_jupyterhub_prefix P, ''routes'', escape routespec]"

text \<open>
  Modelled from the spec: the caller's loop over a listing (\<^verbatim>\<open>get_all_routes\<close> of
  \<^verbatim>\<open>TKvProxy\<close>, not under src/); the spec (4.2, 8): each entry of \<^verbatim>\<open>listRoutes()\<close> is
  passed through \<^verbatim>\<open>decodeRouteEntry\<close>, and a decode failure is raised.
\<close>

fun decode_entries ::
  "proxy \<Rightarrow> kv_entry list \<Rightarrow> etcd \<Rightarrow> error + (string \<times> string \<times> string option) list" where
  "decode_entries P [] c = Inr []"
| "decode_entries P (e # es) c =
     (case kv_get_route_parts P e c of
        Inl x \<Rightarrow> Inl x
      | Inr r \<Rightarrow>
          (case decode_entries P es c of
             Inl x \<Rightarrow> Inl x
           | Inr rs \<Rightarrow> Inr (r # rs)))"

text \<open>
  The prefix of the route keys, as lines 187 and 198 compute it, and the descriptor keys
  of a route. The spec (3) places the descriptor keys under the proxy-facing prefix, apart
  from the route keys: \<open>descriptors_apart\<close> says that none of them lies under the routes
  prefix.
\<close>

definition routes_prefix :: "proxy \<Rightarrow> string" where
  "routes_prefix P = str_join (kv_separator P) [kv_jupyterhub_prefix P, ''routes'' @ kv_separator P]"

definition descriptors_apart :: "proxy \<Rightarrow> route_keys \<Rightarrow> bool" where
  "descriptors_apart P rk =
     (\<not> prefix (routes_prefix P) (service_url_path rk)
      \<and> \<not> prefix (routes_prefix P) (router_service_path rk)
      \<and> \<not> prefix (routes_prefix P) (router_rule_path rk))"



text \<open>
  The store states the caller-facing operations reach, each with the routing table it
  stands for (routespec to target): from a store with no key under the routes prefix, by
  adding a route under its route key, deleting a route by its route key, and persisting a
  flat configuration whose keys are not under the routes prefix.
\<close>

inductive reachable :: "proxy \<Rightarrow> etcd \<Rightarrow> (string \<rightharpoonup> string) \<Rightarrow> bool" for P :: proxy where
  start: "fmfilter (prefix (routes_prefix P)) (kv_data c) = fmempty \<Longrightarrow> reachable P c Map.empty"
| add: "reachable P c routes \<Longrightarrow> descriptors_apart P rk \<Longrightarrow>
        reachable P (snd (kv_atomic_add_route_parts P (routeKey P routespec) target data rk rule c))
          (routes(routespec \<mapsto> target))"
| del: "reachable P c routes \<Longrightarrow> descriptors_apart P rk \<Longrightarrow>
        reachable P (snd (kv_atomic_delete_route_parts P (routeKey P routespec) rk c))
          (routes(routespec := None))"
| persist: "reachable P c routes \<Longrightarrow> list_all (\<lambda>(k, v). \<not> prefix (routes_prefix P) k) flat \<Longrightarrow>
        reachable P (snd (persist_dynamic_config flat c)) routes"

text \<open>The configuration and the descriptor keys used in the examples.\<close>

definition P0 :: proxy where
  "P0 = \<lparr>kv_separator = ''/'', kv_jupyterhub_prefix = ''jupyterhub''\<rparr>"

definition c0 :: etcd where
  "c0 = \<lparr>kv_data = fmempty, txn_log = []\<rparr>"

definition keys_of :: "string \<Rightarrow> route_keys" where
  "keys_of alias =
     \<lparr>service_alias = alias,
      service_url_path = ''traefik/http/services/'' @ alias @ ''/loadBalancer/servers/0/url'',
      router_service_path = ''traefik/http/routers/'' @ alias @ ''/service'',
      router_rule_path = ''traefik/http/routers/'' @ alias @ ''/rule''\<rparr>"

text \<open>
  Example stores: one route for \<^verbatim>\<open>/user/alice/\<close>; then a second route, for
  \<^verbatim>\<open>/user/bob/\<close>, to the same target.
\<close>

definition c_alice :: etcd where
  "c_alice =
     snd (kv_atomic_add_route_parts P0 (routeKey P0 ''/user/alice/'') ''http://10.0.0.9:9000''
            ''meta1'' (keys_of ''alice'') ''PathPrefix(/user/alice/)'' c0)"

definition c_shared :: etcd where
  "c_shared =
     snd (kv_atomic_add_route_parts P0 (routeKey P0 ''/user/bob/'') ''http://10.0.0.9:9000''
            ''meta1'' (keys_of ''bob'') ''PathPrefix(/user/bob/)'' c_alice)"

section \<open>Properties of the codec\<close>

lemma hex_val_hex_digit: "n < 16 \<Longrightarrow> hex_val (hex_digit n) = Some n"
  by (auto simp: hex_val_def hex_digit_def Let_def)

lemma of_char_div_16: "(of_char c :: nat) div 16 < 16"
proof -
  have "(of_char c :: nat) < 256" by simp
  then show ?thesis by arith
qed

lemma safe_char_not_escape_char: "safe_char c \<Longrightarrow> c \<noteq> escape_char"
  by (auto simp: safe_char_def escape_char_def Let_def)

lemma char_of_div_mod: "char_of (16 * ((of_char c :: nat) div 16) + (of_char c :: nat) mod 16) = c"
  by simp

lemma unescape_safe_Cons:
  "safe_char c \<Longrightarrow> unescape (c # cs) = push_char c (unescape cs)"
  by (cases "(c # cs)" rule: unescape.cases) (auto simp: safe_char_not_escape_char)

lemma unescape_escape_one:
  "unescape (escape_one c @ cs) = push_char c (unescape cs)"
  by (simp add: escape_one_def hex_val_hex_digit of_char_div_16 char_of_div_mod)

lemma unescape_escape: "unescape (escape s) = Inr s"
proof (induction s)
  case Nil
  show ?case by (simp add: escape_def)
next
  case (Cons c s)
  have step: "escape (c # s) = (if safe_char c then [c] else escape_one c) @ escape s"
    by (simp add: escape_def)
  show ?case
  proof (cases "safe_char c")
    case True
    with Cons show ?thesis
      by (simp add: step unescape_safe_Cons push_char_def)
  next
    case False
    with Cons show ?thesis
      by (simp add: step unescape_escape_one push_char_def)
  qed
qed

lemma escape_inj: "(escape s = escape t) = (s = t)"
proof
  assume "escape s = escape t"
  then have "unescape (escape s) = unescape (escape t)" by simp
  then show "s = t" by (simp add: unescape_escape)
qed simp

lemma hex_digit_alnum: "n < 16 \<Longrightarrow> safe_char (hex_digit n)"
  by (auto simp: hex_digit_def safe_char_def Let_def)

lemma escape_chars: "c \<in> set (escape s) \<Longrightarrow> safe_char c \<or> c = escape_char"
  by (induction s)
    (auto simp: escape_def escape_one_def hex_digit_alnum of_char_div_16 split: if_splits)

lemma slash_not_in_escape: "CHR ''/'' \<notin> set (escape s)"
proof
  assume "CHR ''/'' \<in> set (escape s)"
  then have "safe_char CHR ''/'' \<or> CHR ''/'' = escape_char" by (rule escape_chars)
  then show False by (simp add: safe_char_def escape_char_def)
qed

text \<open>
  Claim C1. For every string \<open>s\<close>, also one containing the key separator \<open>/\<close>,
  unescaping the escaped form gives \<open>s\<close> back; escape is injective and its image is free of
  the separator \<open>/\<close>.
\<close>

theorem C1_escape_roundtrip:
  "unescape (escape s) = Inr s
   \<and> (escape s = escape t) = (s = t)
   \<and> CHR ''/'' \<notin> set (escape s)"
  by (simp only: unescape_escape escape_inj slash_not_in_escape simp_thms)

section \<open>Facts about the string operations and the backend\<close>

lemma str_replace1_prefix: "str_replace1 (p @ s) p [] = s"
proof (cases "p @ s")
  case Nil
  then show ?thesis by simp
next
  case (Cons a l)
  have "prefix p (p @ s)" by simp
  with Cons have pre: "prefix p (a # l)" by simp
  have "drop (length p) (p @ s) = s" by simp
  with Cons have "drop (length p) (a # l) = s" by simp
  with pre have "str_replace1 (a # l) p [] = s" by simp
  with Cons show ?thesis by simp
qed

lemma target_roundtrip:
  "unescape (str_replace1 (str_join sep [tp, escape v]) (tp @ sep) []) = Inr v"
proof -
  have "str_join sep [tp, escape v] = (tp @ sep) @ escape v" by simp
  then show ?thesis by (simp only: str_replace1_prefix unescape_escape)
qed

lemma etcd_transaction_result:
  "etcd_transaction acts c =
     ((True, map response_of acts),
      c\<lparr>kv_data := fold apply_action acts (kv_data c),
        txn_log := txn_log c @ [\<lparr>txn_compare = [], txn_success = acts, txn_failure = []\<rparr>]\<rparr>)"
  by (simp add: etcd_transaction_def client_transaction_def)

lemma etcd_get_lookup: "etcd_get k c = fmlookup (kv_data c) k"
  by (simp add: etcd_get_def client_get_def split: option.split)

lemma kv_get_target_lookup: "kv_get_target k c = fmlookup (kv_data c) k"
  by (simp add: kv_get_target_def etcd_get_lookup split: option.split)

lemma kv_get_data_lookup: "kv_get_data k c = fmlookup (kv_data c) k"
  by (simp add: kv_get_data_def etcd_get_lookup split: option.split)

lemma add_route_result:
  "kv_atomic_add_route_parts P rs target data rk rule c =
     etcd_transaction
       [Put rs target,
        Put (kv_jupyterhub_prefix P @ kv_separator P @ ''targets'' @ kv_separator P
               @ escape target) data,
        Put (service_url_path rk) target,
        Put (router_service_path rk) (service_alias rk),
        Put (router_rule_path rk) rule] c"
  by (simp add: kv_atomic_add_route_parts_def)

lemma delete_route_result:
  "kv_atomic_delete_route_parts P rs rk c =
     (case fmlookup (kv_data c) rs of
        None \<Rightarrow> ((True, None), c)
      | Some v \<Rightarrow>
          (let r = etcd_transaction
                 [Delete rs,
                  Delete (kv_jupyterhub_prefix P @ kv_separator P @ ''targets'' @ kv_separator P
                            @ escape v),
                  Delete (service_url_path rk),
                  Delete (router_service_path rk),
                  Delete (router_rule_path rk)] c
           in ((fst (fst r), Some (snd (fst r))), snd r)))"
  by (simp add: kv_atomic_delete_route_parts_def etcd_get_lookup split: option.split)

lemma route_parts_result:
  "kv_get_route_parts P e c =
     (case unescape (str_replace1 (key (snd e)) (routes_prefix P) []) of
        Inl err \<Rightarrow> Inl err
      | Inr routespec \<Rightarrow>
          Inr (routespec, fst e,
               kv_get_data (kv_jupyterhub_prefix P @ kv_separator P @ ''targets'' @ kv_separator P
                              @ escape (fst e)) c))"
  unfolding kv_get_route_parts_def Let_def target_roundtrip routes_prefix_def
  by (simp split: sum.split)

lemma routeKey_eq: "routeKey P s = routes_prefix P @ escape s"
  by (simp add: routeKey_def routes_prefix_def)

lemma routeKey_inj: "(routeKey P s = routeKey P s') = (s = s')"
  by (simp add: routeKey_eq escape_inj)

lemma prefix_routeKey: "prefix (routes_prefix P) (routeKey P s)"
  by (simp add: routeKey_eq)

lemma target_key_apart:
  "\<not> prefix (routes_prefix P)
       (kv_jupyterhub_prefix P @ kv_separator P @ ''targets'' @ kv_separator P @ escape t)"
proof -
  have "routes_prefix P = (kv_jupyterhub_prefix P @ kv_separator P) @ (''routes'' @ kv_separator P)"
    by (simp add: routes_prefix_def)
  moreover have "kv_jupyterhub_prefix P @ kv_separator P @ ''targets'' @ kv_separator P @ escape t
      = (kv_jupyterhub_prefix P @ kv_separator P) @ (''targets'' @ kv_separator P @ escape t)"
    by simp
  ultimately show ?thesis
    by (simp only: same_prefix_prefix) simp
qed




text \<open>The keys of the examples, written out.\<close>

lemma ex_routes_prefix: "routes_prefix P0 = ''jupyterhub/routes/''"
  by code_simp

lemma ex_alice_key: "routeKey P0 ''/user/alice/'' = ''jupyterhub/routes/%2Fuser%2Falice%2F''"
  by code_simp

lemma ex_bob_key: "routeKey P0 ''/user/bob/'' = ''jupyterhub/routes/%2Fuser%2Fbob%2F''"
  by code_simp


lemma ex_alice_apart: "descriptors_apart P0 (keys_of ''alice'')"
  by code_simp

lemma ex_bob_apart: "descriptors_apart P0 (keys_of ''bob'')"
  by code_simp


section \<open>Decoding a listed entry\<close>

text \<open>
  Claim C2, refuted as stated: \<^verbatim>\<open>_kv_get_route_parts\<close> has no check that the key starts
  with the routes prefix. The key \<^verbatim>\<open>abc\<close> does not start with
  \<^verbatim>\<open>jupyterhub/routes/\<close>, and the entry is decoded to a triple without any error.
\<close>

theorem C2_counterexample:
  "routes_prefix P0 = ''jupyterhub/routes/''
   \<and> \<not> prefix (routes_prefix P0) ''abc''
   \<and> kv_get_route_parts P0 (''http://10.0.0.9:9000'', \<lparr>key = ''abc''\<rparr>) c0
       = Inr (''abc'', ''http://10.0.0.9:9000'', None)"
  by code_simp

text \<open>
  Claim C2, amended. For every entry whose key does not start with the routes prefix,
  \<^verbatim>\<open>_kv_get_route_parts\<close> removes the leftmost occurrence of the prefix from the key, if
  there is one, and unescapes what is left: it fails with \<^verbatim>\<open>DecodeError\<close> exactly when
  that unescaping fails, and otherwise returns the unescaped string as the routespec,
  the entry's value as the target, and the data read under the target's key.
\<close>

theorem C2_decode_without_prefix_check:
  assumes "\<not> prefix (routes_prefix P) (key (snd e))"
  shows "kv_get_route_parts P e c =
     (case unescape (str_replace1 (key (snd e)) (routes_prefix P) []) of
        Inl err \<Rightarrow> Inl err
      | Inr routespec \<Rightarrow>
          Inr (routespec, fst e,
               kv_get_data (kv_jupyterhub_prefix P @ kv_separator P @ ''targets'' @ kv_separator P
                              @ escape (fst e)) c))"
  by (rule route_parts_result)

text \<open>
  Witness for C2: the key \<^verbatim>\<open>xjupyterhub/routes/abc\<close> does not start with the prefix; the
  occurrence inside it is removed and the entry decodes to the routespec \<^verbatim>\<open>xabc\<close>.
\<close>

theorem C2_witness:
  "\<not> prefix (routes_prefix P0) ''xjupyterhub/routes/abc''
   \<and> kv_get_route_parts P0 (''http://10.0.0.9:9000'', \<lparr>key = ''xjupyterhub/routes/abc''\<rparr>) c0
       = Inr (''xabc'', ''http://10.0.0.9:9000'', None)"
proof -
  have h: "\<not> prefix (routes_prefix P0)
             (key (snd (''http://10.0.0.9:9000'', \<lparr>key = ''xjupyterhub/routes/abc''\<rparr>)))"
    by code_simp
  have u: "unescape (str_replace1 ''xjupyterhub/routes/abc'' (routes_prefix P0) []) = Inr ''xabc''"
    by code_simp
  have d: "kv_get_data (kv_jupyterhub_prefix P0 @ kv_separator P0 @ ''targets'' @ kv_separator P0
              @ escape ''http://10.0.0.9:9000'') c0 = None"
    by (simp add: kv_get_data_lookup c0_def)
  show ?thesis
    using h C2_decode_without_prefix_check [OF h, of c0] u d by simp
qed

section \<open>Adding and deleting a route\<close>

text \<open>
  Claim C3. Every call of \<^verbatim>\<open>_kv_atomic_add_route_parts\<close> submits exactly one transaction:
  its success actions are the five puts routespec to target, target key to data, service
  url path to target, router service path to service alias and router rule path to rule,
  in this order; its compare list and its failure list are empty.
\<close>

theorem C3_add_route_one_transaction:
  "txn_log (snd (kv_atomic_add_route_parts P jupyterhub_routespec target data rk rule c)) =
     txn_log c @
       [\<lparr>txn_compare = [],
         txn_success =
           [Put jupyterhub_routespec target,
            Put (kv_jupyterhub_prefix P @ kv_separator P @ ''targets'' @ kv_separator P
                   @ escape target) data,
            Put (service_url_path rk) target,
            Put (router_service_path rk) (service_alias rk),
            Put (router_rule_path rk) rule],
         txn_failure = []\<rparr>]"
  by (simp add: add_route_result etcd_transaction_result)

text \<open>
  Claim C4. When the routespec key is absent from the store, \<^verbatim>\<open>_kv_atomic_delete_route_parts\<close>
  returns \<open>(True, None)\<close> and the client state, its data and its log of submitted
  transactions, is the one before the call.
\<close>

theorem C4_delete_absent_route:
  assumes "fmlookup (kv_data c) jupyterhub_routespec = None"
  shows "kv_atomic_delete_route_parts P jupyterhub_routespec rk c = ((True, None), c)"
proof -
  from assms have "etcd_get jupyterhub_routespec c = None"
    by (simp add: etcd_get_lookup)
  then show ?thesis
    by (simp add: kv_atomic_delete_route_parts_def)
qed

text \<open>Witness for C4: deleting the route of \<^verbatim>\<open>/user/alice/\<close> from the empty store.\<close>

theorem C4_witness:
  "fmlookup (kv_data c0) ''jupyterhub/routes/%2Fuser%2Falice%2F'' = None
   \<and> kv_atomic_delete_route_parts P0 ''jupyterhub/routes/%2Fuser%2Falice%2F'' (keys_of ''alice'') c0
       = ((True, None), c0)"
proof -
  have h: "fmlookup (kv_data c0) ''jupyterhub/routes/%2Fuser%2Falice%2F'' = None"
    by (simp add: c0_def)
  show ?thesis
    using h C4_delete_absent_route [OF h, of P0 "keys_of ''alice''"] by simp
qed



text \<open>
  Claim C6. After \<^verbatim>\<open>_kv_atomic_delete_route_parts\<close> succeeds, \<^verbatim>\<open>_kv_get_target\<close> of the
  routespec key returns \<open>None\<close>. When the routespec key was stored, with value \<open>v\<close>, the
  call submits exactly one transaction, of the five deletes of the routespec key, the
  target key of \<open>v\<close> and the three descriptor keys, with no compare condition; when it was
  absent no transaction is submitted.
\<close>

theorem C6_delete_then_get:
  assumes r: "r = kv_atomic_delete_route_parts P spec rk c"
    and ok: "fst (fst r)"
  shows "kv_get_target spec (snd r) = None
     \<and> txn_log (snd r) = txn_log c @
         (case fmlookup (kv_data c) spec of
            None \<Rightarrow> []
          | Some v \<Rightarrow>
              [\<lparr>txn_compare = [],
                txn_success =
                  [Delete spec,
                   Delete (kv_jupyterhub_prefix P @ kv_separator P @ ''targets'' @ kv_separator P
                             @ escape v),
                   Delete (service_url_path rk),
                   Delete (router_service_path rk),
                   Delete (router_rule_path rk)],
                txn_failure = []\<rparr>])"
  unfolding r
  by (simp add: kv_get_target_lookup etcd_get_lookup delete_route_result etcd_transaction_result
      split: option.split)

text \<open>Witness for C6: the route of \<^verbatim>\<open>/user/alice/\<close> deleted from the store that holds it.\<close>

theorem C6_witness:
  "fst (fst (kv_atomic_delete_route_parts P0 (routeKey P0 ''/user/alice/'') (keys_of ''alice'') c_alice))
   \<and> kv_get_target (routeKey P0 ''/user/alice/'')
        (snd (kv_atomic_delete_route_parts P0 (routeKey P0 ''/user/alice/'') (keys_of ''alice'') c_alice))
      = None
   \<and> txn_log (snd (kv_atomic_delete_route_parts P0 (routeKey P0 ''/user/alice/'') (keys_of ''alice'')
                     c_alice))
      = txn_log c_alice @
          [\<lparr>txn_compare = [],
            txn_success =
              [Delete (routeKey P0 ''/user/alice/''),
               Delete (kv_jupyterhub_prefix P0 @ kv_separator P0 @ ''targets'' @ kv_separator P0
                         @ escape ''http://10.0.0.9:9000''),
               Delete (service_url_path (keys_of ''alice'')),
               Delete (router_service_path (keys_of ''alice'')),
               Delete (router_rule_path (keys_of ''alice''))],
            txn_failure = []\<rparr>]"
proof -
  let ?r = "kv_atomic_delete_route_parts P0 (routeKey P0 ''/user/alice/'') (keys_of ''alice'') c_alice"
  have ok: "fst (fst ?r)"
    by (simp add: delete_route_result etcd_transaction_result split: option.split)
  have g: "fmlookup (kv_data c_alice) (routeKey P0 ''/user/alice/'') = Some ''http://10.0.0.9:9000''"
    by code_simp
  from C6_delete_then_get [OF refl ok] g ok show ?thesis
    by simp
qed

text \<open>
  Claim C7. Calling \<^verbatim>\<open>_kv_atomic_add_route_parts\<close> a second time with the same arguments
  leaves the contents of the store as they are after the first call.
\<close>

theorem C7_add_route_idempotent:
  "kv_data (snd (kv_atomic_add_route_parts P rs target data rk rule
       (snd (kv_atomic_add_route_parts P rs target data rk rule c))))
   = kv_data (snd (kv_atomic_add_route_parts P rs target data rk rule c))"
  by (rule fmap_ext) (simp add: add_route_result etcd_transaction_result)

text \<open>
  Claim C8, refuted as stated. The routes of \<^verbatim>\<open>/user/alice/\<close> and \<^verbatim>\<open>/user/bob/\<close> share
  the target \<^verbatim>\<open>http://10.0.0.9:9000\<close>. Deleting the first succeeds, the second still has
  its target, and the data stored under the key of the shared target is gone.
\<close>

theorem C8_counterexample:
  "fst (fst (kv_atomic_delete_route_parts P0 (routeKey P0 ''/user/alice/'') (keys_of ''alice'') c_shared))
   \<and> kv_get_target (routeKey P0 ''/user/bob/'')
        (snd (kv_atomic_delete_route_parts P0 (routeKey P0 ''/user/alice/'') (keys_of ''alice'') c_shared))
      = Some ''http://10.0.0.9:9000''
   \<and> kv_get_data ''jupyterhub/targets/http%3A%2F%2F10%2E0%2E0%2E9%3A9000'' c_shared = Some ''meta1''
   \<and> kv_get_data ''jupyterhub/targets/http%3A%2F%2F10%2E0%2E0%2E9%3A9000''
        (snd (kv_atomic_delete_route_parts P0 (routeKey P0 ''/user/alice/'') (keys_of ''alice'') c_shared))
      = None"
  by code_simp

text \<open>
  Claim C8, amended. \<^verbatim>\<open>_kv_atomic_delete_route_parts\<close> deletes the data key of the stored
  target without looking at other routes: when the routespec key is stored with a target,
  after the call \<^verbatim>\<open>_kv_get_data\<close> of that target's key returns \<open>None\<close>, whether or not
  another route has the same target.
\<close>

theorem C8_delete_drops_target_data:
  assumes "fmlookup (kv_data c) spec = Some target"
  shows "kv_get_data (kv_jupyterhub_prefix P @ kv_separator P @ ''targets'' @ kv_separator P
                        @ escape target)
           (snd (kv_atomic_delete_route_parts P spec rk c)) = None"
  using assms
  by (simp add: kv_get_data_lookup etcd_get_lookup delete_route_result etcd_transaction_result)

text \<open>Witness for C8: the two routes with the shared target.\<close>

theorem C8_witness:
  "fmlookup (kv_data c_shared) (routeKey P0 ''/user/alice/'') = Some ''http://10.0.0.9:9000''
   \<and> kv_get_data (kv_jupyterhub_prefix P0 @ kv_separator P0 @ ''targets'' @ kv_separator P0
                    @ escape ''http://10.0.0.9:9000'')
        (snd (kv_atomic_delete_route_parts P0 (routeKey P0 ''/user/alice/'') (keys_of ''alice'') c_shared))
      = None"
proof -
  have g: "fmlookup (kv_data c_shared) (routeKey P0 ''/user/alice/'') = Some ''http://10.0.0.9:9000''"
    by code_simp
  from g C8_delete_drops_target_data [OF g, of P0 "keys_of ''alice''"] show ?thesis
    by (rule conjI)
qed

section \<open>Reading the data of a target\<close>

text \<open>
  Claim C10. \<^verbatim>\<open>_kv_get_data\<close> reads the one key it is given, with no escaping and no
  prefix added, and returns the stored value as it is, or \<open>None\<close> when the key is
  absent; its caller \<^verbatim>\<open>_kv_get_route_parts\<close> passes the computed target key, so the data
  of a decoded entry is the value stored under prefix, \<^verbatim>\<open>targets\<close> and the escaped value
  of the entry.
\<close>

theorem C10_get_data_direct_read:
  "kv_get_data k c = fmlookup (kv_data c) k
   \<and> (\<forall>routespec target data.
         kv_get_route_parts P e c = Inr (routespec, target, data) \<longrightarrow>
         data = fmlookup (kv_data c)
                  (kv_jupyterhub_prefix P @ kv_separator P @ ''targets'' @ kv_separator P
                     @ escape (fst e)))"
  by (auto simp: kv_get_data_lookup route_parts_result split: sum.splits)

text \<open>
  Witness for C10: in the store with the route of \<^verbatim>\<open>/user/alice/\<close>, reading the target
  itself finds nothing, and decoding the entry of the route finds the data under the
  target key.
\<close>

theorem C10_witness:
  "kv_get_data ''http://10.0.0.9:9000'' c_alice = None
   \<and> kv_get_route_parts P0 (''http://10.0.0.9:9000'', \<lparr>key = routeKey P0 ''/user/alice/''\<rparr>) c_alice
       = Inr (''/user/alice/'', ''http://10.0.0.9:9000'', Some ''meta1'')
   \<and> fmlookup (kv_data c_alice)
        (kv_jupyterhub_prefix P0 @ kv_separator P0 @ ''targets'' @ kv_separator P0
           @ escape ''http://10.0.0.9:9000'')
      = Some ''meta1''"
proof -
  let ?e = "(''http://10.0.0.9:9000'', \<lparr>key = routeKey P0 ''/user/alice/''\<rparr>)"
  note inst = C10_get_data_direct_read [of "''http://10.0.0.9:9000''" c_alice P0 ?e]
  have raw: "fmlookup (kv_data c_alice) ''http://10.0.0.9:9000'' = None"
    by code_simp
  have parts: "kv_get_route_parts P0 ?e c_alice
      = Inr (''/user/alice/'', ''http://10.0.0.9:9000'', Some ''meta1'')"
    by code_simp
  from inst raw have "kv_get_data ''http://10.0.0.9:9000'' c_alice = None"
    by simp
  moreover from inst parts
  have "Some ''meta1'' = fmlookup (kv_data c_alice)
      (kv_jupyterhub_prefix P0 @ kv_separator P0 @ ''targets'' @ kv_separator P0
         @ escape (fst ?e))"
    by blast
  ultimately show ?thesis
    using parts by simp
qed

section \<open>Listing the routes\<close>

lemma decode_routeKey:
  "kv_get_route_parts P (v, \<lparr>key = routeKey P s\<rparr>) c =
     Inr (s, v, kv_get_data (kv_jupyterhub_prefix P @ kv_separator P @ ''targets'' @ kv_separator P
                               @ escape v) c)"
  by (simp add: route_parts_result routeKey_eq str_replace1_prefix unescape_escape)

lemma add_lookup:
  assumes "descriptors_apart P rk" and "prefix (routes_prefix P) k"
  shows "fmlookup (kv_data (snd (kv_atomic_add_route_parts P (routeKey P s) t d rk rule c))) k
       = (if k = routeKey P s then Some t else fmlookup (kv_data c) k)"
proof -
  from assms have "service_url_path rk \<noteq> k" "router_service_path rk \<noteq> k" "router_rule_path rk \<noteq> k"
    by (auto simp: descriptors_apart_def)
  moreover from assms(2) target_key_apart [of P t]
  have "kv_jupyterhub_prefix P @ kv_separator P @ ''targets'' @ kv_separator P @ escape t \<noteq> k"
    by auto
  ultimately show ?thesis
    by (auto simp: add_route_result etcd_transaction_result)
qed

lemma del_lookup:
  assumes "descriptors_apart P rk" and "prefix (routes_prefix P) k"
  shows "fmlookup (kv_data (snd (kv_atomic_delete_route_parts P (routeKey P s) rk c))) k
       = (if k = routeKey P s then None else fmlookup (kv_data c) k)"
proof (cases "fmlookup (kv_data c) (routeKey P s)")
  case None
  then show ?thesis by (auto simp: delete_route_result)
next
  case (Some v)
  from assms have "service_url_path rk \<noteq> k" "router_service_path rk \<noteq> k" "router_rule_path rk \<noteq> k"
    by (auto simp: descriptors_apart_def)
  moreover from assms(2) target_key_apart [of P v]
  have "kv_jupyterhub_prefix P @ kv_separator P @ ''targets'' @ kv_separator P @ escape v \<noteq> k"
    by auto
  ultimately show ?thesis
    using Some by (auto simp: delete_route_result etcd_transaction_result)
qed

lemma fold_puts_lookup:
  "list_all (\<lambda>(k, v). \<not> prefix p k) flat \<Longrightarrow> prefix p k' \<Longrightarrow>
     fmlookup (fold apply_action (map (\<lambda>(k, v). Put k v) flat) m) k' = fmlookup m k'"
  by (induction flat arbitrary: m) auto

lemma persist_lookup:
  assumes "list_all (\<lambda>(k, v). \<not> prefix (routes_prefix P) k) flat" and "prefix (routes_prefix P) k"
  shows "fmlookup (kv_data (snd (persist_dynamic_config flat c))) k = fmlookup (kv_data c) k"
  using assms
  by (simp add: persist_dynamic_config_def Let_def etcd_transaction_result fold_puts_lookup)

text \<open>
  The two halves of the invariant of the reachable stores: under a route key the store
  holds what the routing table holds, and every stored key under the routes prefix is a
  route key.
\<close>

lemma reachable_lookup:
  "reachable P c routes \<Longrightarrow> fmlookup (kv_data c) (routeKey P s) = routes s"
proof (induction arbitrary: s rule: reachable.induct)
  case (start c)
  have "fmlookup (fmfilter (prefix (routes_prefix P)) (kv_data c)) (routeKey P s) = None"
    by (simp only: start fmempty_lookup)
  then show ?case by (simp add: prefix_routeKey)
next
  case (add c routes rk routespec target data rule)
  then show ?case by (simp add: add_lookup prefix_routeKey routeKey_inj)
next
  case (del c routes rk routespec)
  then show ?case by (simp add: del_lookup prefix_routeKey routeKey_inj)
next
  case (persist c routes flat)
  then show ?case by (simp add: persist_lookup prefix_routeKey)
qed

lemma reachable_keys:
  "reachable P c routes \<Longrightarrow> prefix (routes_prefix P) k \<Longrightarrow> fmlookup (kv_data c) k = Some v
     \<Longrightarrow> \<exists>s. k = routeKey P s"
proof (induction arbitrary: v rule: reachable.induct)
  case (start c)
  have "fmlookup (fmfilter (prefix (routes_prefix P)) (kv_data c)) k = None"
    by (simp only: start.hyps fmempty_lookup)
  with start.prems(1) have "fmlookup (kv_data c) k = None" by simp
  with start.prems(2) show ?case by simp
next
  case (add c routes rk routespec target data rule)
  then show ?case by (auto simp: add_lookup split: if_splits)
next
  case (del c routes rk routespec)
  then show ?case by (auto simp: del_lookup split: if_splits)
next
  case (persist c routes flat)
  then show ?case by (simp add: persist_lookup)
qed

lemma decode_entries_map:
  "(\<And>x. x \<in> set xs \<Longrightarrow> kv_get_route_parts P (g x) c = Inr (h x))
     \<Longrightarrow> decode_entries P (map g xs) c = Inr (map h xs)"
  by (induction xs) simp_all

lemma distinct_keys_sorted_list: "distinct (map fst (sorted_list_of_fmap m))"
proof -
  have "map fst (sorted_list_of_fmap m) = sorted_list_of_fset (fmdom m)"
    by (simp add: sorted_list_of_fmap_def comp_def)
  then show ?thesis
    by (simp add: sorted_list_of_fset.rep_eq)
qed

lemma set_sorted_list: "((k, v) \<in> set (sorted_list_of_fmap m)) = (fmlookup m k = Some v)"
proof -
  have "(map_of (sorted_list_of_fmap m) k = Some v) = ((k, v) \<in> set (sorted_list_of_fmap m))"
    by (rule map_of_eq_Some_iff) (rule distinct_keys_sorted_list)
  then show ?thesis by simp
qed

text \<open>
  Claim C9. In every store reached by adding routes under their route keys, deleting
  routes and persisting configuration, with descriptor and configuration keys outside the
  routes prefix, decoding every entry of \<^verbatim>\<open>_kv_get_jupyterhub_prefixed_entries\<close> with
  \<^verbatim>\<open>_kv_get_route_parts\<close> succeeds, no routespec occurs twice in the result, and the
  routespecs with their targets are exactly the routing table: the routes added and not
  deleted since, each with the target last stored for it.
\<close>

theorem C9_list_routes_exact:
  assumes "reachable P c routes"
  shows "\<exists>rs. decode_entries P (kv_get_jupyterhub_prefixed_entries P c) c = Inr rs
            \<and> distinct (map fst rs)
            \<and> map_of (map (\<lambda>(routespec, target, data). (routespec, target)) rs) = routes"
proof -
  define m where "m = fmfilter (prefix (routes_prefix P)) (kv_data c)"
  define L where "L = sorted_list_of_fmap m"
  define tk where
    "tk v = kv_jupyterhub_prefix P @ kv_separator P @ ''targets'' @ kv_separator P @ escape v" for v
  define dec where "dec k = (THE s. k = routeKey P s)" for k
  define g :: "string \<times> string \<Rightarrow> kv_entry" where "g = (\<lambda>(k, v). (v, \<lparr>key = k\<rparr>))"
  define h where "h = (\<lambda>(k, v). (dec k, v, kv_get_data (tk v) c))"
  have dec_routeKey: "dec (routeKey P s) = s" for s
    by (simp add: dec_def routeKey_inj)
  have entries: "kv_get_jupyterhub_prefixed_entries P c = map g L"
    by (simp add: kv_get_jupyterhub_prefixed_entries_def etcd_get_prefix_def client_get_prefix_def
        L_def m_def g_def routes_prefix_def Let_def)
  have in_L: "((k, v) \<in> set L) = (prefix (routes_prefix P) k \<and> fmlookup (kv_data c) k = Some v)"
    for k v
    by (simp add: L_def m_def set_sorted_list)
  have L_key: "\<exists>s. k = routeKey P s \<and> routes s = Some v" if "(k, v) \<in> set L" for k v
  proof -
    from that have p: "prefix (routes_prefix P) k" and l: "fmlookup (kv_data c) k = Some v"
      by (simp_all add: in_L)
    from reachable_keys [OF assms p l] obtain s where s: "k = routeKey P s" ..
    with l reachable_lookup [OF assms, of s] show ?thesis by auto
  qed
  have "decode_entries P (map g L) c = Inr (map h L)"
  proof (rule decode_entries_map)
    fix x assume x: "x \<in> set L"
    obtain k v where kv: "x = (k, v)" by (cases x)
    with x L_key obtain s where "k = routeKey P s" by blast
    then show "kv_get_route_parts P (g x) c = Inr (h x)"
      by (simp add: kv g_def h_def decode_routeKey dec_routeKey tk_def)
  qed
  moreover have dist: "distinct (map fst (map h L))"
  proof -
    have e: "map fst (map h L) = map dec (map fst L)"
      by (simp add: h_def comp_def case_prod_beta)
    have d: "distinct (map fst L)"
      by (simp add: L_def distinct_keys_sorted_list)
    have i: "inj_on dec (set (map fst L))"
    proof (rule inj_onI)
      fix k k' assume "k \<in> set (map fst L)" "k' \<in> set (map fst L)" and eq: "dec k = dec k'"
      then obtain s s' where "k = routeKey P s" "k' = routeKey P s'"
        using L_key by fastforce
      with eq show "k = k'" by (simp add: dec_routeKey)
    qed
    from d i have "distinct (map dec (map fst L))"
      using distinct_map [of dec "map fst L"] by blast
    with e show ?thesis by (simp only:)
  qed
  moreover have "map_of (map (\<lambda>(routespec, target, data). (routespec, target)) (map h L)) = routes"
  proof
    fix s
    let ?M = "map (\<lambda>(routespec, target, data). (routespec, target)) (map h L)"
    have M: "?M = map (\<lambda>(k, v). (dec k, v)) L"
      by (simp add: h_def comp_def case_prod_beta)
    have distM: "distinct (map fst ?M)"
      using dist by (simp add: comp_def case_prod_beta)
    show "map_of ?M s = routes s"
    proof (cases "routes s")
      case None
      have "s \<notin> fst ` set ?M"
      proof
        assume "s \<in> fst ` set ?M"
        then obtain k v where kv: "(k, v) \<in> set L" and s: "s = dec k"
          unfolding M by auto
        from L_key [OF kv] obtain s' where "k = routeKey P s'" "routes s' = Some v" by blast
        with s None show False by (simp add: dec_routeKey)
      qed
      then have "map_of ?M s = None" by (simp add: map_of_eq_None_iff)
      with None show ?thesis by simp
    next
      case (Some t)
      with reachable_lookup [OF assms, of s] have "(routeKey P s, t) \<in> set L"
        by (simp add: in_L prefix_routeKey)
      then have "(dec (routeKey P s), t) \<in> set ?M"
        unfolding M by force
      then have "(s, t) \<in> set ?M" by (simp only: dec_routeKey)
      with distM have "map_of ?M s = Some t" by (rule map_of_is_SomeI)
      with Some show ?thesis by simp
    qed
  qed
  ultimately show ?thesis unfolding entries by blast
qed

text \<open>
  Witness for C9: the routes of \<^verbatim>\<open>/user/alice/\<close> and \<^verbatim>\<open>/user/bob/\<close> are added to the
  empty store and the first is deleted; the listing decodes to the routing table that
  holds the second route only.
\<close>

theorem C9_witness:
  "\<exists>rs. decode_entries P0
           (kv_get_jupyterhub_prefixed_entries P0
              (snd (kv_atomic_delete_route_parts P0 (routeKey P0 ''/user/alice/'')
                      (keys_of ''alice'') c_shared)))
           (snd (kv_atomic_delete_route_parts P0 (routeKey P0 ''/user/alice/'')
                   (keys_of ''alice'') c_shared)) = Inr rs
        \<and> distinct (map fst rs)
        \<and> map_of (map (\<lambda>(routespec, target, data). (routespec, target)) rs)
            = [''/user/bob/'' \<mapsto> ''http://10.0.0.9:9000'']"
proof -
  have "kv_data c0 = fmempty"
    by (simp add: c0_def)
  then have "fmfilter (prefix (routes_prefix P0)) (kv_data c0) = fmempty"
    by (simp only: fmfilter_empty)
  then have r0: "reachable P0 c0 Map.empty"
    by (rule reachable.start)
  have r1: "reachable P0 c_alice [''/user/alice/'' \<mapsto> ''http://10.0.0.9:9000'']"
    unfolding c_alice_def by (rule reachable.add [OF r0 ex_alice_apart])
  have r2: "reachable P0 c_shared
      [''/user/alice/'' \<mapsto> ''http://10.0.0.9:9000'', ''/user/bob/'' \<mapsto> ''http://10.0.0.9:9000'']"
    unfolding c_shared_def by (rule reachable.add [OF r1 ex_bob_apart])
  have r3: "reachable P0
      (snd (kv_atomic_delete_route_parts P0 (routeKey P0 ''/user/alice/'') (keys_of ''alice'') c_shared))
      ([''/user/alice/'' \<mapsto> ''http://10.0.0.9:9000'', ''/user/bob/'' \<mapsto> ''http://10.0.0.9:9000'']
         (''/user/alice/'' := None))"
    by (rule reachable.del [OF r2 ex_alice_apart])
  have table: "[''/user/alice/'' \<mapsto> ''http://10.0.0.9:9000'', ''/user/bob/'' \<mapsto> ''http://10.0.0.9:9000'']
         (''/user/alice/'' := None)
      = [''/user/bob/'' \<mapsto> ''http://10.0.0.9:9000'']"
    by (rule ext) simp
  from C9_list_routes_exact [OF r3] show ?thesis
    by (simp only: table)
qed

end
